theory Spec2Isabelle
  imports Main "HOL-Library.Sublist"
begin

section \<open>Strings and the regular expressions of script.js\<close>

text \<open>
  A JavaScript string is a sequence of code units; it is modelled as a \<open>string\<close>, one
  \<open>char\<close> for each code unit (the range 0 to 255). The script itself tells apart ASCII
  characters only (\<open><\<close>, \<open>/\<close>, \<open>>\<close>, the letters, the blanks removed by \<open>trim\<close>).
\<close>

definition in_range :: "char \<Rightarrow> char \<Rightarrow> char \<Rightarrow> bool" where
  "in_range lo hi c = ((of_char lo :: nat) \<le> of_char c \<and> (of_char c :: nat) \<le> of_char hi)"

definition upper :: "char \<Rightarrow> char" where
  "upper c = (if in_range CHR ''a'' CHR ''z'' c then char_of ((of_char c :: nat) - 32) else c)"

definition lower :: "char \<Rightarrow> char" where
  "lower c = (if in_range CHR ''A'' CHR ''Z'' c then char_of ((of_char c :: nat) + 32) else c)"

text \<open>
  The two regular expressions of the script, \<open>/<\/?[a-z][\s\S]*>/i\<close> and \<open>/<img /g\<close>, are
  sequences of one-character atoms, each taken once, optionally (\<open>?\<close>) or repeatedly
  (\<open>*\<close>). \<open>[\s\S]\<close> is the class of all characters.
\<close>

datatype atom = Lit char | Range char char | AnyChar

datatype piece = One atom | Opt atom | Star atom

type_synonym regex = "piece list"

text \<open>
  With the flag \<open>i\<close> a character matches an atom when its canonical (upper-case) form is
  the canonical form of a member of the atom, that is, when the character, its upper-case
  or its lower-case form is a member. The patterns of the script are ASCII, and the
  canonical form of a character outside ASCII is never an ASCII character, so \<open>upper\<close> and
  \<open>lower\<close> map the ASCII letters and leave every other character alone.
\<close>

fun atom_matches :: "bool \<Rightarrow> atom \<Rightarrow> char \<Rightarrow> bool" where
  "atom_matches ic (Lit a) c = (if ic then upper a = upper c else a = c)"
| "atom_matches ic (Range lo hi) c =
     (in_range lo hi c \<or> (ic \<and> (in_range lo hi (upper c) \<or> in_range lo hi (lower c))))"
| "atom_matches ic AnyChar c = True"

text \<open>
  \<open>match_here ic r s\<close> is the backtracking matcher anchored at the start of \<open>s\<close>: the
  number of characters of the first match in priority order (\<open>?\<close> and \<open>*\<close> are greedy),
  or \<open>None\<close>.
\<close>

fun match_here :: "bool \<Rightarrow> regex \<Rightarrow> string \<Rightarrow> nat option" where
  "match_here ic [] s = Some 0"
| "match_here ic (One a # r) s =
     (case s of [] \<Rightarrow> None
      | c # cs \<Rightarrow> if atom_matches ic a c then map_option Suc (match_here ic r cs) else None)"
| "match_here ic (Opt a # r) s =
     (case (case s of [] \<Rightarrow> None
            | c # cs \<Rightarrow> if atom_matches ic a c then map_option Suc (match_here ic r cs) else None) of
        Some n \<Rightarrow> Some n
      | None \<Rightarrow> match_here ic r s)"
| "match_here ic (Star a # r) s =
     (case (case s of [] \<Rightarrow> None
            | c # cs \<Rightarrow> if atom_matches ic a c
                       then map_option Suc (match_here ic (Star a # r) cs) else None) of
        Some n \<Rightarrow> Some n
      | None \<Rightarrow> match_here ic r s)"

text \<open>\<open>regex.test(s)\<close> without the flag \<open>g\<close>: is there a match at some position of \<open>s\<close>.\<close>

fun regex_test :: "bool \<Rightarrow> regex \<Rightarrow> string \<Rightarrow> bool" where
  "regex_test ic r [] = (match_here ic r [] \<noteq> None)"
| "regex_test ic r (c # cs) = (match_here ic r (c # cs) \<noteq> None \<or> regex_test ic r cs)"

text \<open>
  \<open>s.replace(regex, rep)\<close> with the flag \<open>g\<close> and a replacement text without \<open>$\<close>: scan
  from the left, replace each match and go on after it (after one more character when the
  match is empty).
\<close>

fun regex_replace_g :: "bool \<Rightarrow> regex \<Rightarrow> string \<Rightarrow> string \<Rightarrow> string" where
  "regex_replace_g ic r rep [] = (case match_here ic r [] of None \<Rightarrow> [] | Some n \<Rightarrow> rep)"
| "regex_replace_g ic r rep (c # cs) =
     (case match_here ic r (c # cs) of
        None \<Rightarrow> c # regex_replace_g ic r rep cs
      | Some 0 \<Rightarrow> rep @ c # regex_replace_g ic r rep cs
      | Some (Suc n) \<Rightarrow> rep @ regex_replace_g ic r rep (drop n cs))"

definition html_tag_rx :: regex where
  "html_tag_rx = [One (Lit CHR ''<''), Opt (Lit CHR ''/''), One (Range CHR ''a'' CHR ''z''),
                  Star AnyChar, One (Lit CHR ''>'')]"

definition img_rx :: regex where
  "img_rx = map (\<lambda>c. One (Lit c)) ''<img ''"

definition img_style :: string where
  "img_style = ''<img style='' @ [CHR 0x27] @ ''max-width:100%; height:auto; display:block; margin:10px 0;''
               @ [CHR 0x27] @ '' ''"

text \<open>Lines 60 to 63: \<open>html.replace(/<img /g, "<img style='...' ")\<close>.\<close>

definition fix_images :: "string \<Rightarrow> string" where
  "fix_images html = regex_replace_g False img_rx img_style html"

section \<open>JSON.stringify of a conversation\<close>

text \<open>
  \<open>JSON.stringify\<close> quotes a string: \<open>"\<close> and \<open>\\<close> get a backslash, the control
  characters their short escape or \<open>\u00XX\<close> in lower-case hexadecimal, every other
  character stands for itself.
\<close>

definition hex_digit :: "nat \<Rightarrow> char" where
  "hex_digit n = ''0123456789abcdef'' ! (n mod 16)"

definition json_escape :: "char \<Rightarrow> string" where
  "json_escape c =
     (let n = (of_char c :: nat) in
      if n = 0x22 then [CHR 0x5C, CHR 0x22]
      else if n = 0x5C then [CHR 0x5C, CHR 0x5C]
      else if n = 8 then [CHR 0x5C, CHR ''b'']
      else if n = 12 then [CHR 0x5C, CHR ''f'']
      else if n = 10 then [CHR 0x5C, CHR ''n'']
      else if n = 13 then [CHR 0x5C, CHR ''r'']
      else if n = 9 then [CHR 0x5C, CHR ''t'']
      else if n < 0x20 then [CHR 0x5C, CHR ''u'', CHR ''0'', CHR ''0'', hex_digit (n div 16), hex_digit n]
      else [c])"

definition json_quote :: "string \<Rightarrow> string" where
  "json_quote s = [CHR 0x22] @ concat (map json_escape s) @ [CHR 0x22]"

fun join :: "string \<Rightarrow> string list \<Rightarrow> string" where
  "join sep [] = []"
| "join sep [x] = x"
| "join sep (x # y # ys) = x @ sep @ join sep (y # ys)"

section \<open>JSON.parse\<close>

text \<open>
  \<open>JSON.parse\<close> accepts the JSON grammar and nothing else; every other text raises a
  \<open>SyntaxError\<close>. A parsed string is a list of code units (a \<open>\u\<close> escape may name a
  unit above 255), a number is kept as its text, an object as its members in the order
  read.
\<close>

datatype error = SyntaxError | TypeError | NetworkFailure

datatype json = JNull | JBool bool | JNumber string | JString "nat list"
  | JArray "json list" | JObject "(nat list \<times> json) list"

text \<open>The lexer: a machine that reads one character at a time.\<close>

datatype token = LBrace | RBrace | LBracket | RBracket | Colon | Comma
  | TString "nat list" | TNumber string | TTrue | TFalse | TNull

datatype nstate = AfterMinus | AfterZero | InInt | AfterDot | InFrac | AfterE | AfterESign | InExp

datatype lstate = Start | InString "nat list" | InEscape "nat list"
  | InUnicode "nat list" "nat list" | InLiteral string token | InNumber nstate string

definition is_digit :: "char \<Rightarrow> bool" where
  "is_digit c = in_range CHR ''0'' CHR ''9'' c"

definition hex_value :: "char \<Rightarrow> nat option" where
  "hex_value c =
     (if in_range CHR ''0'' CHR ''9'' c then Some (of_char c - 48)
      else if in_range CHR ''a'' CHR ''f'' c then Some (of_char c - 87)
      else if in_range CHR ''A'' CHR ''F'' c then Some (of_char c - 55)
      else None)"

definition unescape :: "char \<Rightarrow> nat option" where
  "unescape c =
     (if c = CHR 0x22 then Some 0x22
      else if c = CHR 0x5C then Some 0x5C
      else if c = CHR ''/'' then Some 0x2F
      else if c = CHR ''b'' then Some 8
      else if c = CHR ''f'' then Some 12
      else if c = CHR ''n'' then Some 10
      else if c = CHR ''r'' then Some 13
      else if c = CHR ''t'' then Some 9
      else None)"

definition json_space :: "char \<Rightarrow> bool" where
  "json_space c = ((of_char c :: nat) \<in> {9, 10, 13, 32})"

definition number_step :: "nstate \<Rightarrow> char \<Rightarrow> nstate option" where
  "number_step ns c =
     (case ns of
        AfterMinus \<Rightarrow> if c = CHR ''0'' then Some AfterZero else if is_digit c then Some InInt else None
      | AfterZero \<Rightarrow> if c = CHR ''.'' then Some AfterDot
                     else if c = CHR ''e'' \<or> c = CHR ''E'' then Some AfterE else None
      | InInt \<Rightarrow> if is_digit c then Some InInt else if c = CHR ''.'' then Some AfterDot
                 else if c = CHR ''e'' \<or> c = CHR ''E'' then Some AfterE else None
      | AfterDot \<Rightarrow> if is_digit c then Some InFrac else None
      | InFrac \<Rightarrow> if is_digit c then Some InFrac
                  else if c = CHR ''e'' \<or> c = CHR ''E'' then Some AfterE else None
      | AfterE \<Rightarrow> if c = CHR ''+'' \<or> c = CHR ''-'' then Some AfterESign
                  else if is_digit c then Some InExp else None
      | AfterESign \<Rightarrow> if is_digit c then Some InExp else None
      | InExp \<Rightarrow> if is_digit c then Some InExp else None)"

definition number_final :: "nstate \<Rightarrow> bool" where
  "number_final ns = (ns = AfterZero \<or> ns = InInt \<or> ns = InFrac \<or> ns = InExp)"

definition lex_start :: "char \<Rightarrow> (token list \<times> lstate) option" where
  "lex_start c =
     (if json_space c then Some ([], Start)
      else if c = CHR ''{'' then Some ([LBrace], Start)
      else if c = CHR ''}'' then Some ([RBrace], Start)
      else if c = CHR ''['' then Some ([LBracket], Start)
      else if c = CHR '']'' then Some ([RBracket], Start)
      else if c = CHR '':'' then Some ([Colon], Start)
      else if c = CHR '','' then Some ([Comma], Start)
      else if c = CHR 0x22 then Some ([], InString [])
      else if c = CHR ''t'' then Some ([], InLiteral ''rue'' TTrue)
      else if c = CHR ''f'' then Some ([], InLiteral ''alse'' TFalse)
      else if c = CHR ''n'' then Some ([], InLiteral ''ull'' TNull)
      else if c = CHR ''-'' then Some ([], InNumber AfterMinus [c])
      else if c = CHR ''0'' then Some ([], InNumber AfterZero [c])
      else if is_digit c then Some ([], InNumber InInt [c])
      else None)"

fun lex_step :: "lstate \<Rightarrow> char \<Rightarrow> (token list \<times> lstate) option" where
  "lex_step Start c = lex_start c"
| "lex_step (InString acc) c =
     (if c = CHR 0x22 then Some ([TString (rev acc)], Start)
      else if c = CHR 0x5C then Some ([], InEscape acc)
      else if (of_char c :: nat) < 0x20 then None
      else Some ([], InString (of_char c # acc)))"
| "lex_step (InEscape acc) c =
     (if c = CHR ''u'' then Some ([], InUnicode acc [])
      else case unescape c of None \<Rightarrow> None | Some u \<Rightarrow> Some ([], InString (u # acc)))"
| "lex_step (InUnicode acc ds) c =
     (case hex_value c of
        None \<Rightarrow> None
      | Some d \<Rightarrow>
          if length ds < 3 then Some ([], InUnicode acc (ds @ [d]))
          else Some ([], InString (foldl (\<lambda>v h. 16 * v + h) 0 (ds @ [d]) # acc)))"
| "lex_step (InLiteral rest tok) c =
     (case rest of
        [] \<Rightarrow> None
      | x # xs \<Rightarrow> if c \<noteq> x then None
                  else if xs = [] then Some ([tok], Start) else Some ([], InLiteral xs tok))"
| "lex_step (InNumber ns acc) c =
     (case number_step ns c of
        Some ns' \<Rightarrow> Some ([], InNumber ns' (c # acc))
      | None \<Rightarrow>
          if number_final ns
          then (case lex_start c of None \<Rightarrow> None
                | Some (toks, st) \<Rightarrow> Some (TNumber (rev acc) # toks, st))
          else None)"

fun lex_run :: "lstate \<Rightarrow> string \<Rightarrow> token list option" where
  "lex_run st [] =
     (case st of
        Start \<Rightarrow> Some []
      | InNumber ns acc \<Rightarrow> if number_final ns then Some [TNumber (rev acc)] else None
      | _ \<Rightarrow> None)"
| "lex_run st (c # cs) =
     (case lex_step st c of
        None \<Rightarrow> None
      | Some (toks, st') \<Rightarrow> map_option ((@) toks) (lex_run st' cs))"

text \<open>
  The parser: a machine that reads one token at a time, with the stack of the arrays and
  objects that are still open.
\<close>

datatype frame = FArray "json list" | FObject "(nat list \<times> json) list" | FMember "(nat list \<times> json) list" "nat list"

datatype pstate = PValue | PFirstElem | PFirstKey | PKey | PColon "nat list" | PAfter | PDone json

fun complete :: "json \<Rightarrow> frame list \<Rightarrow> (pstate \<times> frame list) option" where
  "complete v [] = Some (PDone v, [])"
| "complete v (FArray vs # fs) = Some (PAfter, FArray (vs @ [v]) # fs)"
| "complete v (FMember ms k # fs) = Some (PAfter, FObject (ms @ [(k, v)]) # fs)"
| "complete v (FObject ms # fs) = None"

fun parse_value :: "token \<Rightarrow> frame list \<Rightarrow> (pstate \<times> frame list) option" where
  "parse_value LBracket fs = Some (PFirstElem, FArray [] # fs)"
| "parse_value LBrace fs = Some (PFirstKey, FObject [] # fs)"
| "parse_value (TString s) fs = complete (JString s) fs"
| "parse_value (TNumber n) fs = complete (JNumber n) fs"
| "parse_value TTrue fs = complete (JBool True) fs"
| "parse_value TFalse fs = complete (JBool False) fs"
| "parse_value TNull fs = complete JNull fs"
| "parse_value _ fs = None"

fun close :: "token \<Rightarrow> frame list \<Rightarrow> (pstate \<times> frame list) option" where
  "close RBracket (FArray vs # fs) = complete (JArray vs) fs"
| "close RBrace (FObject ms # fs) = complete (JObject ms) fs"
| "close _ _ = None"

fun parse_key :: "token \<Rightarrow> frame list \<Rightarrow> (pstate \<times> frame list) option" where
  "parse_key (TString k) fs = Some (PColon k, fs)"
| "parse_key _ _ = None"

fun parse_step :: "pstate \<Rightarrow> frame list \<Rightarrow> token \<Rightarrow> (pstate \<times> frame list) option" where
  "parse_step PValue fs t = parse_value t fs"
| "parse_step PFirstElem fs t = (if t = RBracket then close t fs else parse_value t fs)"
| "parse_step PFirstKey fs t = (if t = RBrace then close t fs else parse_key t fs)"
| "parse_step PKey fs t = parse_key t fs"
| "parse_step (PColon k) fs t =
     (case (t, fs) of (Colon, FObject ms # fs') \<Rightarrow> Some (PValue, FMember ms k # fs') | _ \<Rightarrow> None)"
| "parse_step PAfter fs t =
     (if t = Comma
      then (case fs of FArray vs # fs' \<Rightarrow> Some (PValue, fs) | FObject ms # fs' \<Rightarrow> Some (PKey, fs)
            | _ \<Rightarrow> None)
      else close t fs)"
| "parse_step (PDone v) fs t = None"

fun parse_run :: "pstate \<Rightarrow> frame list \<Rightarrow> token list \<Rightarrow> json option" where
  "parse_run p fs [] = (case p of PDone v \<Rightarrow> Some v | _ \<Rightarrow> None)"
| "parse_run p fs (t # ts) =
     (case parse_step p fs t of None \<Rightarrow> None | Some (p', fs') \<Rightarrow> parse_run p' fs' ts)"

definition JSON_parse :: "string \<Rightarrow> error + json" where
  "JSON_parse s =
     (case lex_run Start s of
        None \<Rightarrow> Inl SyntaxError
      | Some toks \<Rightarrow>
          (case parse_run PValue [] toks of None \<Rightarrow> Inl SyntaxError | Some v \<Rightarrow> Inr v))"

section \<open>The page: conversation, storage, chat display and controls\<close>

record turn =
  role :: string
  content :: string

text \<open>A turn \<open>{role, content}\<close> serialises with its keys in insertion order.\<close>

definition stringify_turn :: "turn \<Rightarrow> string" where
  "stringify_turn t =
     ''{'' @ json_quote ''role'' @ '':'' @ json_quote (role t) @ '','' @
     json_quote ''content'' @ '':'' @ json_quote (content t) @ ''}''"

definition JSON_stringify :: "turn list \<Rightarrow> string" where
  "JSON_stringify ms = ''['' @ join '','' (map stringify_turn ms) @ '']''"

text \<open>
  The \<open>div\<close> built by \<open>renderMessage\<close> is filled either through \<open>textContent\<close> (the string
  becomes one text node, nothing in it is parsed) or through \<open>innerHTML\<close> (the string is
  handed to the browser's HTML parser).
\<close>

datatype node_content = TextContent string | InnerHTML string

record element =
  className :: string
  body :: node_content

datatype effect = SetItem string string | RemoveItem string | Post string string

text \<open>
  The state of the page: the array \<open>messages\<close>, the item \<open>gene_history\<close> of
  \<open>localStorage\<close>, the children of \<open>chatBox\<close>, the text field and the two controls, the
  class \<open>hidden\<close> of the typing indicator, and the calls made so far to the storage and to
  the network, in order. Scrolling, focus, the size of the text field and the copy buttons
  added by a timer are left out: no other part of the script reads them.
\<close>

record state =
  messages :: "turn list"
  storage :: "string option"
  chatBox :: "element list"
  input_value :: string
  input_disabled :: bool
  send_disabled :: bool
  typing_hidden :: bool
  effects :: "effect list"

definition MAX_CONTEXT_MESSAGES :: int where
  "MAX_CONTEXT_MESSAGES = 20"

text \<open>
  \<open>xs.slice(start)\<close>: a negative \<open>start\<close> counts from the end and is clamped at the first
  element, a positive one is clamped at the length.
\<close>

definition slice_from :: "int \<Rightarrow> 'a list \<Rightarrow> 'a list" where
  "slice_from start xs =
     (let len = int (length xs);
          k = (if start < 0 then max (len + start) 0 else min start len)
      in drop (nat k) xs)"

text \<open>\<open>getLlmMessages\<close> returns the window together with the state it leaves behind.\<close>

definition getLlmMessages :: "state \<Rightarrow> turn list \<times> state" where
  "getLlmMessages st = (slice_from (- MAX_CONTEXT_MESSAGES) (messages st), st)"

text \<open>
  \<open>renderMessage\<close>, lines 44 to 72. The markdown converter \<open>marked.parse\<close> is a library
  outside the script and is a parameter \<open>md\<close>. For a string, \<open>content || ""\<close> is
  \<open>content\<close>.
\<close>

definition message_div :: "(string \<Rightarrow> string) \<Rightarrow> string \<Rightarrow> string \<Rightarrow> element" where
  "message_div md r c =
     \<lparr> className = ''message '' @ (if r = ''user'' then ''user'' else ''assistant''),
       body =
         (if r = ''user'' then TextContent c
          else
            let containsHTML = regex_test True html_tag_rx c;
                html = (if containsHTML then c else md c);
                html = fix_images html
            in InnerHTML html) \<rparr>"

definition renderMessage :: "(string \<Rightarrow> string) \<Rightarrow> string \<Rightarrow> string \<Rightarrow> state \<Rightarrow> state" where
  "renderMessage md r c st = st\<lparr>chatBox := chatBox st @ [message_div md r c]\<rparr>"

definition saveHistory :: "state \<Rightarrow> state" where
  "saveHistory st =
     (let v = JSON_stringify (messages st)
      in st\<lparr>storage := Some v, effects := effects st @ [SetItem ''gene_history'' v]\<rparr>)"

definition push :: "turn \<Rightarrow> state \<Rightarrow> state" where
  "push t st = st\<lparr>messages := messages st @ [t]\<rparr>"

text \<open>\<open>s.trim()\<close> removes the blanks and line ends at both ends of \<open>s\<close>.\<close>

definition is_space :: "char \<Rightarrow> bool" where
  "is_space c = ((of_char c :: nat) \<in> {9, 10, 11, 12, 13, 32, 160})"

definition trim :: "string \<Rightarrow> string" where
  "trim s = rev (dropWhile is_space (rev (dropWhile is_space s)))"

text \<open>
  The answer of the backend as \<open>sendMessage\<close> sees it: \<open>fetch\<close> rejects, or \<open>res.json()\<close>
  rejects because the body is not JSON, or the body is \<open>null\<close>, or it is a value whose
  fields \<open>reply\<close> and \<open>html\<close> are strings or absent.
\<close>

record response =
  reply :: "string option"
  html :: "string option"

datatype outcome = FetchRejected | BodyNotJSON | BodyNull | Body response

definition truthy :: "string option \<Rightarrow> bool" where
  "truthy v = (case v of None \<Rightarrow> False | Some s \<Rightarrow> s \<noteq> [])"

text \<open>
  \<open>sendMessage\<close> up to its first \<open>await\<close>, lines 87 to 108: everything from the click to
  the call of \<open>fetch\<close>.
\<close>

definition request_body :: "turn list \<Rightarrow> string" where
  "request_body llm = ''{'' @ json_quote ''messages'' @ '':'' @ JSON_stringify llm @ ''}''"

definition sendMessage_begin :: "(string \<Rightarrow> string) \<Rightarrow> state \<Rightarrow> state" where
  "sendMessage_begin md st =
     (let text = trim (input_value st) in
      if text = [] then st
      else
        let st = st\<lparr>send_disabled := True, input_disabled := True\<rparr>;
            st = renderMessage md ''user'' text st;
            st = push \<lparr>role = ''user'', content = text\<rparr> st;
            st = saveHistory st;
            st = st\<lparr>input_value := []\<rparr>;
            st = st\<lparr>typing_hidden := False\<rparr>;
            (llmMessages, st) = getLlmMessages st
        in st\<lparr>effects := effects st @ [Post ''/chat'' (request_body llmMessages)]\<rparr>)"

text \<open>
  \<open>sendMessage\<close> from the first \<open>await\<close> on, lines 104 to 127, run when the backend has
  answered. A rejected \<open>await\<close> or an exception ends the function there: the state is
  returned as it is at that point, with the error, which nothing catches. Nothing else
  runs between two statements that no \<open>await\<close> separates, so each half of \<open>sendMessage\<close>
  is one step of the page.
\<close>

definition sendMessage_resume ::
    "(string \<Rightarrow> string) \<Rightarrow> outcome \<Rightarrow> state \<Rightarrow> state \<times> error option" where
  "sendMessage_resume md out st =
     (case out of
        FetchRejected \<Rightarrow> (st, Some NetworkFailure)
      | BodyNotJSON \<Rightarrow> (st, Some SyntaxError)
      | BodyNull \<Rightarrow> (st\<lparr>typing_hidden := True\<rparr>, Some TypeError)
      | Body data \<Rightarrow>
          let st = st\<lparr>typing_hidden := True\<rparr>;
              st = (if truthy (reply data)
                    then push \<lparr>role = ''assistant'', content = the (reply data)\<rparr>
                           (renderMessage md ''assistant'' (the (reply data)) st)
                    else st);
              st = (if truthy (html data)
                    then renderMessage md ''assistant'' (the (html data)) st
                    else st);
              st = saveHistory st
          in (st\<lparr>send_disabled := False, input_disabled := False\<rparr>, None))"

text \<open>The handler of the clear button, lines 168 to 172.\<close>

definition clearChat :: "state \<Rightarrow> state" where
  "clearChat st =
     st\<lparr>messages := [], storage := None, chatBox := [],
        effects := effects st @ [RemoveItem ''gene_history'']\<rparr>"

text \<open>
  \<open>sendMessage\<close> as a whole, when no other handler runs while it waits for the backend.
\<close>

definition sendMessage ::
    "(string \<Rightarrow> string) \<Rightarrow> outcome \<Rightarrow> state \<Rightarrow> state \<times> error option" where
  "sendMessage md out st =
     (if trim (input_value st) = [] then (st, None)
      else sendMessage_resume md out (sendMessage_begin md st))"

text \<open>
  Line 25: \<open>JSON.parse(localStorage.getItem("gene_history") || "[]")\<close>. The item is
  \<open>null\<close> when absent; \<open>null\<close> and the empty string are falsy. An exception of
  \<open>JSON.parse\<close> leaves the script at this line: nothing catches it.
\<close>

definition restore :: "string option \<Rightarrow> error + json" where
  "restore item =
     JSON_parse (case item of None \<Rightarrow> ''[]'' | Some s \<Rightarrow> if s = [] then ''[]'' else s)"

text \<open>The JSON value that the array \<open>messages\<close> denotes.\<close>

definition units :: "string \<Rightarrow> nat list" where
  "units s = map of_char s"

definition json_of_turn :: "turn \<Rightarrow> json" where
  "json_of_turn t =
     JObject [(units ''role'', JString (units (role t))),
              (units ''content'', JString (units (content t)))]"

definition json_of_messages :: "turn list \<Rightarrow> json" where
  "json_of_messages ms = JArray (map json_of_turn ms)"

text \<open>The tokens of a serialised turn, and the tokens of a serialised conversation.\<close>

definition turn_tokens :: "turn \<Rightarrow> token list" where
  "turn_tokens t =
     [LBrace, TString (units ''role''), Colon, TString (units (role t)), Comma,
      TString (units ''content''), Colon, TString (units (content t)), RBrace]"

definition messages_tokens :: "turn list \<Rightarrow> token list" where
  "messages_tokens ms =
     LBracket #
     (case ms of [] \<Rightarrow> [] | t # ts \<Rightarrow> turn_tokens t @ concat (map (\<lambda>t. Comma # turn_tokens t) ts)) @
     [RBracket]"

text \<open>
  The page as it is after loading with no stored history, with a text typed into the text
  field: the controls enabled, the typing indicator hidden.
\<close>

definition fresh_page :: "string \<Rightarrow> state" where
  "fresh_page txt =
     \<lparr>messages = [], storage = None, chatBox = [], input_value = txt,
      input_disabled = False, send_disabled = False, typing_hidden = True, effects = []\<rparr>"

section \<open>The notions the properties are stated with\<close>

definition is_letter :: "char \<Rightarrow> bool" where
  "is_letter c = (in_range CHR ''a'' CHR ''z'' c \<or> in_range CHR ''A'' CHR ''Z'' c)"

text \<open>
  The heuristic as the specification words it: a \<open><\<close> followed by a letter, anywhere in
  the string.
\<close>

fun lt_then_letter :: "string \<Rightarrow> bool" where
  "lt_then_letter (c # d # s) = (c = CHR ''<'' \<and> is_letter d \<or> lt_then_letter (d # s))"
| "lt_then_letter _ = False"

text \<open>
  What the regular expression of line 53 accepts: a \<open><\<close>, then a \<open>/\<close> or not, then a
  letter, and a \<open>>\<close> anywhere after the letter.
\<close>

definition tag_like :: "string \<Rightarrow> bool" where
  "tag_like s =
     (\<exists>a l b c. is_letter l \<and>
        (s = a @ CHR ''<'' # l # b @ CHR ''>'' # c \<or>
         s = a @ CHR ''<'' # CHR ''/'' # l # b @ CHR ''>'' # c))"

definition occurs :: "string \<Rightarrow> string \<Rightarrow> bool" where
  "occurs pat s = (\<exists>a b. s = a @ pat @ b)"

text \<open>
  A converter to run the model with: it wraps its input in a paragraph, as \<open>marked\<close> does
  with a line of plain text. No theorem below depends on it but the evaluations at
  concrete inputs.
\<close>

definition wrap_paragraph :: "string \<Rightarrow> string" where
  "wrap_paragraph s = ''<p>'' @ s @ ''</p>''"

section \<open>Properties\<close>

subsection \<open>What the regular expression of line 53 accepts\<close>

lemma of_char_upper:
  "(of_char (upper c) :: nat) =
     (if 97 \<le> (of_char c :: nat) \<and> (of_char c :: nat) \<le> 122 then of_char c - 32 else of_char c)"
proof -
  have "(of_char c :: nat) - 32 < 256"
    using nat_of_char_less_256 [of c] by (rule less_imp_diff_less)
  then show ?thesis by (simp add: upper_def in_range_def)
qed

lemma of_char_lower:
  "(of_char (lower c) :: nat) =
     (if 65 \<le> (of_char c :: nat) \<and> (of_char c :: nat) \<le> 90 then of_char c + 32 else of_char c)"
proof -
  have "(of_char c :: nat) \<le> 90 \<Longrightarrow> ((of_char c :: nat) + 32) mod 256 = of_char c + 32"
    by simp
  then show ?thesis by (simp add: lower_def in_range_def)
qed

lemma char_eq_code: "(c = d) = ((of_char c :: nat) = of_char d)"
  by simp

lemma upper_eq_symbol:
  assumes "(of_char x :: nat) < 65"
  shows "(upper x = upper c) = (x = c)"
proof -
  have "(upper x = upper c) = ((of_char (upper x) :: nat) = of_char (upper c))"
    by (rule char_eq_code)
  also have "\<dots> = ((of_char x :: nat) = of_char c)"
    using assms by (auto simp: of_char_upper)
  also have "\<dots> = (x = c)" by simp
  finally show ?thesis .
qed

lemma atom_Lit_symbol:
  "atom_matches ic (Lit CHR ''<'') c = (c = CHR ''<'')"
  "atom_matches ic (Lit CHR ''/'') c = (c = CHR ''/'')"
  "atom_matches ic (Lit CHR ''>'') c = (c = CHR ''>'')"
  by (auto simp: upper_eq_symbol)

lemma atom_letter: "atom_matches True (Range CHR ''a'' CHR ''z'') c = is_letter c"
  by (auto simp: is_letter_def in_range_def of_char_upper of_char_lower)

lemma ok_Nil: "(match_here ic [] s \<noteq> None) = True"
  by simp

lemma ok_One:
  "(match_here ic (One a # r) s \<noteq> None) =
     (\<exists>c cs. s = c # cs \<and> atom_matches ic a c \<and> match_here ic r cs \<noteq> None)"
  by (cases s) simp_all

lemma ok_Opt:
  "(match_here ic (Opt a # r) s \<noteq> None) =
     ((\<exists>c cs. s = c # cs \<and> atom_matches ic a c \<and> match_here ic r cs \<noteq> None) \<or>
      match_here ic r s \<noteq> None)"
  by (cases s) (auto split: option.splits)

lemma ok_Star_Nil: "(match_here ic (Star a # r) [] \<noteq> None) = (match_here ic r [] \<noteq> None)"
  by simp

lemma ok_Star_Cons:
  "(match_here ic (Star a # r) (c # cs) \<noteq> None) =
     (atom_matches ic a c \<and> match_here ic (Star a # r) cs \<noteq> None \<or>
      match_here ic r (c # cs) \<noteq> None)"
  by (auto split: option.splits)

lemma match_rest:
  "(match_here ic [Star AnyChar, One (Lit CHR ''>'')] s \<noteq> None) = (CHR ''>'' \<in> set s)"
proof (induction s)
  case Nil
  show ?case by (simp only: ok_Star_Nil ok_One) simp
next
  case (Cons c cs)
  have "(match_here ic [Star AnyChar, One (Lit CHR ''>'')] (c # cs) \<noteq> None) =
          (CHR ''>'' \<in> set cs \<or> c = CHR ''>'')"
    by (simp only: ok_Star_Cons Cons.IH ok_One ok_Nil atom_Lit_symbol atom_matches.simps(3)) simp
  then show ?case by auto
qed

lemma not_letter_slash: "\<not> is_letter CHR ''/''"
  by (simp add: is_letter_def in_range_def)

lemma match_tag:
  "(match_here True html_tag_rx s \<noteq> None) =
     (\<exists>l t. is_letter l \<and> CHR ''>'' \<in> set t \<and>
        (s = CHR ''<'' # l # t \<or> s = CHR ''<'' # CHR ''/'' # l # t))"
  unfolding html_tag_rx_def
  apply (simp only: ok_One ok_Opt match_rest atom_Lit_symbol atom_letter)
  using not_letter_slash apply auto
  done

lemma regex_test_iff:
  "regex_test ic r s = (\<exists>a b. s = a @ b \<and> match_here ic r b \<noteq> None)"
proof (induction s)
  case Nil
  then show ?case by simp
next
  case (Cons c cs)
  show ?case
  proof
    assume "regex_test ic r (c # cs)"
    then consider "match_here ic r (c # cs) \<noteq> None" | "regex_test ic r cs" by auto
    then show "\<exists>a b. c # cs = a @ b \<and> match_here ic r b \<noteq> None"
    proof cases
      case 1
      then have "c # cs = [] @ (c # cs) \<and> match_here ic r (c # cs) \<noteq> None" by simp
      then show ?thesis by blast
    next
      case 2
      then obtain a b where "cs = a @ b" "match_here ic r b \<noteq> None" using Cons.IH by blast
      then have "c # cs = (c # a) @ b \<and> match_here ic r b \<noteq> None" by simp
      then show ?thesis by blast
    qed
  next
    assume "\<exists>a b. c # cs = a @ b \<and> match_here ic r b \<noteq> None"
    then obtain a b where ab: "c # cs = a @ b" "match_here ic r b \<noteq> None" by blast
    show "regex_test ic r (c # cs)"
    proof (cases a)
      case Nil
      then have "b = c # cs" using ab(1) by simp
      then show ?thesis using ab(2) by simp
    next
      case (Cons x a')
      then have "cs = a' @ b" using ab by simp
      then have "regex_test ic r cs" using ab(2) Cons.IH by blast
      then show ?thesis by simp
    qed
  qed
qed

lemma containsHTML_iff: "regex_test True html_tag_rx s = tag_like s"
proof
  assume "regex_test True html_tag_rx s"
  then obtain a b where ab: "s = a @ b" "match_here True html_tag_rx b \<noteq> None"
    unfolding regex_test_iff by blast
  from ab(2) obtain l t where lt: "is_letter l" "CHR ''>'' \<in> set t"
      "b = CHR ''<'' # l # t \<or> b = CHR ''<'' # CHR ''/'' # l # t"
    unfolding match_tag by blast
  from lt(2) obtain u v where t: "t = u @ CHR ''>'' # v"
    using split_list by fast
  have "s = a @ CHR ''<'' # l # u @ CHR ''>'' # v \<or>
        s = a @ CHR ''<'' # CHR ''/'' # l # u @ CHR ''>'' # v"
    using lt(3) by (simp add: ab(1) t)
  with lt(1) show "tag_like s" unfolding tag_like_def by blast
next
  assume "tag_like s"
  then obtain a l b c where l: "is_letter l"
    and s: "s = a @ CHR ''<'' # l # b @ CHR ''>'' # c \<or>
            s = a @ CHR ''<'' # CHR ''/'' # l # b @ CHR ''>'' # c"
    unfolding tag_like_def by blast
  define t where "t = b @ CHR ''>'' # c"
  have gt: "CHR ''>'' \<in> set t" by (simp add: t_def)
  have m: "match_here True html_tag_rx (CHR ''<'' # l # t) \<noteq> None"
          "match_here True html_tag_rx (CHR ''<'' # CHR ''/'' # l # t) \<noteq> None"
    unfolding match_tag using l gt by blast+
  from s have "s = a @ (CHR ''<'' # l # t) \<or> s = a @ (CHR ''<'' # CHR ''/'' # l # t)"
    by (simp add: t_def)
  with m show "regex_test True html_tag_rx s"
    unfolding regex_test_iff by blast
qed


subsection \<open>The image rewrite of lines 60 to 63\<close>

lemma match_literal:
  "match_here False (map (\<lambda>c. One (Lit c)) p) s = (if prefix p s then Some (length p) else None)"
proof (induction p arbitrary: s)
  case Nil
  show ?case by simp
next
  case (Cons x p)
  show ?case
  proof (cases s)
    case Nil
    then show ?thesis by simp
  next
    case (Cons c cs)
    then show ?thesis by (simp add: Cons.IH)
  qed
qed

lemma match_img: "match_here False img_rx s = (if prefix ''<img '' s then Some 5 else None)"
  unfolding img_rx_def by (subst match_literal) simp

lemma fix_images_Nil: "fix_images [] = []"
  by (simp add: fix_images_def match_img)

lemma fix_images_Cons:
  "fix_images (c # cs) =
     (if prefix ''<img '' (c # cs) then img_style @ fix_images (drop 4 cs) else c # fix_images cs)"
  by (simp add: fix_images_def match_img)

lemma occurs_prefix: "prefix pat s \<Longrightarrow> occurs pat s"
  unfolding occurs_def prefix_def by (metis append_Nil)

lemma occurs_Cons: "occurs pat s \<Longrightarrow> occurs pat (c # s)"
  unfolding occurs_def by (metis append_Cons)

lemma fix_images_none: "\<not> occurs ''<img '' s \<Longrightarrow> fix_images s = s"
proof (induction s)
  case Nil
  show ?case by (rule fix_images_Nil)
next
  case (Cons c cs)
  have np: "\<not> prefix ''<img '' (c # cs)" using Cons.prems occurs_prefix by blast
  have "\<not> occurs ''<img '' cs" using Cons.prems occurs_Cons by blast
  then have "fix_images cs = cs" by (rule Cons.IH)
  then show ?case using np by (simp only: fix_images_Cons if_False)
qed

lemma img_no_border:
  assumes "''<img '' = w @ us" and "w \<noteq> []" and "prefix us (''<img '' @ b)"
  shows "us = []"
proof (rule ccontr)
  assume "us \<noteq> []"
  then obtain u us' where us: "us = u # us'" by (cases us) auto
  from assms(3) have "u = CHR ''<''" by (simp add: us)
  from assms(2) obtain x w' where w: "w = x # w'" by (cases w) auto
  from assms(1) have "''img '' = w' @ us" by (simp add: w)
  then have "set us \<subseteq> set ''img ''" by (metis set_append Un_upper2)
  then show False using \<open>u = CHR ''<''\<close> by (simp add: us)
qed

lemma prefix_img_append:
  assumes "prefix ''<img '' ((x # a) @ ''<img '' @ b)"
  shows "prefix ''<img '' (x # a)"
proof -
  from assms consider "prefix ''<img '' (x # a)"
    | us where "''<img '' = (x # a) @ us" "prefix us (''<img '' @ b)"
    unfolding prefix_append by blast
  then show ?thesis
  proof cases
    case 1
    then show ?thesis .
  next
    case 2
    then have "us = []" using img_no_border [of "x # a" us b] by simp
    then show ?thesis using 2(1) by simp
  qed
qed

lemma fix_images_first:
  "\<not> occurs ''<img '' a \<Longrightarrow> fix_images (a @ ''<img '' @ b) = a @ img_style @ fix_images b"
proof (induction a)
  case Nil
  show ?case by (simp add: fix_images_Cons)
next
  case (Cons x a)
  have "\<not> prefix ''<img '' (x # a)" using Cons.prems occurs_prefix by blast
  then have np: "\<not> prefix ''<img '' ((x # a) @ ''<img '' @ b)"
    using prefix_img_append by blast
  have "\<not> occurs ''<img '' a" using Cons.prems occurs_Cons by blast
  then have ih: "fix_images (a @ ''<img '' @ b) = a @ img_style @ fix_images b"
    by (rule Cons.IH)
  have "fix_images ((x # a) @ ''<img '' @ b) = x # fix_images (a @ ''<img '' @ b)"
    using np by (simp only: append_Cons fix_images_Cons if_False)
  then show ?case using ih by simp
qed


lemma occurs_Nil: "occurs pat [] = (pat = [])"
  unfolding occurs_def by auto

lemma occurs_Cons_iff: "occurs pat (c # cs) = (prefix pat (c # cs) \<or> occurs pat cs)"
proof
  assume "occurs pat (c # cs)"
  then obtain a b where ab: "c # cs = a @ pat @ b" unfolding occurs_def by blast
  show "prefix pat (c # cs) \<or> occurs pat cs"
  proof (cases a)
    case Nil
    then show ?thesis using ab by (simp add: prefix_def)
  next
    case (Cons x a')
    then have "cs = a' @ pat @ b" using ab by simp
    then show ?thesis unfolding occurs_def by blast
  qed
next
  assume "prefix pat (c # cs) \<or> occurs pat cs"
  then show "occurs pat (c # cs)" using occurs_prefix occurs_Cons by blast
qed

lemmas occurs_eval = occurs_Nil occurs_Cons_iff

text \<open>
  Claim C1, as amended: for the role \<open>assistant\<close> the content itself is inserted as HTML
  exactly when it contains a \<open><\<close>, then a \<open>/\<close> or not, then an ASCII letter, and a
  \<open>>\<close> anywhere after the letter; otherwise its markdown conversion is inserted. In both
  cases the text inserted has gone through the image rewrite of lines 60 to 63.
\<close>

theorem assistant_html_or_markdown:
  "message_div md ''assistant'' c =
     \<lparr>className = ''message assistant'',
      body = InnerHTML (fix_images (if tag_like c then c else md c))\<rparr>"
  by (simp add: message_div_def containsHTML_iff)

theorem assistant_html_or_markdown_witness:
  "message_div wrap_paragraph ''assistant'' ''**bold**'' =
     \<lparr>className = ''message assistant'', body = InnerHTML ''<p>**bold**</p>''\<rparr>"
proof -
  have "\<not> tag_like ''**bold**''"
    unfolding containsHTML_iff [symmetric] by code_simp
  moreover have "fix_images (wrap_paragraph ''**bold**'') = ''<p>**bold**</p>''" by code_simp
  ultimately show ?thesis
    using assistant_html_or_markdown [of wrap_paragraph "''**bold**''"] by simp
qed

text \<open>
  Claim C1 as stated fails. In \<open>x<y\<close> a letter follows the \<open><\<close>, and the markdown
  conversion is inserted, not the content; in \<open></b>\<close> no letter follows the \<open><\<close>,
  and the content is inserted as it is, not its conversion.
\<close>

theorem tag_heuristic_counterexample:
  "lt_then_letter ''x<y'' \<and>
   body (message_div wrap_paragraph ''assistant'' ''x<y'') = InnerHTML ''<p>x<y</p>'' \<and>
   \<not> lt_then_letter ''</b>'' \<and>
   body (message_div wrap_paragraph ''assistant'' ''</b>'') = InnerHTML ''</b>''"
  by code_simp

text \<open>
  Claim C8, as amended: in the HTML of an assistant message (the content itself or its
  markdown conversion) every occurrence of the text \<open><img\<close> followed by a space, found
  from left to right, is replaced by \<open><img style='max-width:100%; height:auto;
  display:block; margin:10px 0;'\<close> and a space, and nothing else is changed. An image
  tag written in another way is left as it is.
\<close>

theorem images_restyled:
  "body (message_div md ''assistant'' c) =
     InnerHTML (fix_images (if regex_test True html_tag_rx c then c else md c)) \<and>
   (\<not> occurs ''<img '' h \<longrightarrow> fix_images h = h) \<and>
   (\<not> occurs ''<img '' a \<longrightarrow> fix_images (a @ ''<img '' @ b) = a @ img_style @ fix_images b)"
  using fix_images_first [of a b]
  by (simp add: message_div_def fix_images_none)

theorem images_restyled_witness:
  "\<not> occurs ''<img '' ''src=x></p>'' \<and> fix_images ''src=x></p>'' = ''src=x></p>'' \<and>
   \<not> occurs ''<img '' ''<p>'' \<and>
   fix_images ''<p><img src=x></p>'' = ''<p>'' @ img_style @ ''src=x></p>''"
  using images_restyled [of wrap_paragraph "''hi''" "''src=x></p>''" "''<p>''" "''src=x></p>''"]
  by (simp add: occurs_eval)

text \<open>
  Claim C8 as stated fails: an image tag in upper case, or one without a space after
  \<open><img\<close>, is inserted without the style.
\<close>

theorem images_restyled_counterexample:
  "body (message_div wrap_paragraph ''assistant'' ''<IMG src=x>'') = InnerHTML ''<IMG src=x>'' \<and>
   body (message_div wrap_paragraph ''assistant'' ''<img>'') = InnerHTML ''<img>''"
  by code_simp


subsection \<open>The context window\<close>

lemma slice_from_neg: "0 < n \<Longrightarrow> slice_from (- n) xs = drop (length xs - nat n) xs"
  by (auto simp: slice_from_def Let_def max_def nat_diff_distrib')

text \<open>
  Claim C3: \<open>getLlmMessages\<close> returns at most 20 turns; for a conversation of more than
  20 turns it returns its last 20 turns, in their order; for a conversation of 20 turns
  or fewer it returns all of them; and it leaves the state as it was.
\<close>

theorem contextWindow_last_20:
  "length (fst (getLlmMessages st)) \<le> 20 \<and>
   (20 < length (messages st) \<longrightarrow>
      (\<exists>older. messages st = older @ fst (getLlmMessages st)) \<and>
      length (fst (getLlmMessages st)) = 20) \<and>
   (length (messages st) \<le> 20 \<longrightarrow> fst (getLlmMessages st) = messages st) \<and>
   snd (getLlmMessages st) = st"
proof -
  have w: "fst (getLlmMessages st) = drop (length (messages st) - 20) (messages st)"
    by (simp add: getLlmMessages_def MAX_CONTEXT_MESSAGES_def slice_from_neg)
  have "messages st = take (length (messages st) - 20) (messages st) @ fst (getLlmMessages st)"
    by (simp add: w)
  then have "\<exists>older. messages st = older @ fst (getLlmMessages st)" by blast
  moreover have "snd (getLlmMessages st) = st"
    by (simp add: getLlmMessages_def)
  ultimately show ?thesis by (auto simp: w)
qed

theorem contextWindow_last_20_witness:
  "20 < length (messages
      \<lparr>messages = \<lparr>role = ''user'', content = ''first''\<rparr> #
                   replicate 20 \<lparr>role = ''user'', content = ''next''\<rparr>,
       storage = None, chatBox = [], input_value = [], input_disabled = False,
       send_disabled = False, typing_hidden = True, effects = []\<rparr>) \<and>
   fst (getLlmMessages
      \<lparr>messages = \<lparr>role = ''user'', content = ''first''\<rparr> #
                   replicate 20 \<lparr>role = ''user'', content = ''next''\<rparr>,
       storage = None, chatBox = [], input_value = [], input_disabled = False,
       send_disabled = False, typing_hidden = True, effects = []\<rparr>)
     = replicate 20 \<lparr>role = ''user'', content = ''next''\<rparr>"
  using contextWindow_last_20 [of
      "\<lparr>messages = \<lparr>role = ''user'', content = ''first''\<rparr> #
                    replicate 20 \<lparr>role = ''user'', content = ''next''\<rparr>,
        storage = None, chatBox = [], input_value = [], input_disabled = False,
        send_disabled = False, typing_hidden = True, effects = []\<rparr>"]
  by (simp add: getLlmMessages_def MAX_CONTEXT_MESSAGES_def slice_from_def)

subsection \<open>Rendering a user message\<close>

text \<open>
  Claim C5: for the role \<open>user\<close> and every content, the content is set as the text of
  the message, whatever it contains (so \<open><b>x</b>\<close> is shown as these seven
  characters), and nothing of it reaches the HTML parser.
\<close>

theorem user_content_is_text:
  "message_div md ''user'' c = \<lparr>className = ''message user'', body = TextContent c\<rparr> \<and>
   body (message_div md ''user'' c) \<noteq> InnerHTML h \<and>
   body (message_div md ''user'' ''<b>x</b>'') = TextContent ''<b>x</b>'' \<and>
   chatBox (renderMessage md ''user'' c st) =
     chatBox st @ [\<lparr>className = ''message user'', body = TextContent c\<rparr>]"
  by (simp add: message_div_def renderMessage_def)

subsection \<open>Reading back what saveHistory wrote\<close>

lemma char_code_eq: "(of_char d :: nat) = n \<Longrightarrow> (c = d) = ((of_char c :: nat) = n)"
  by (metis of_char_eq_iff)

lemma char_eq_quote: "(c = CHR 0x22) = ((of_char c :: nat) = 34)"
  by (rule char_code_eq) simp

lemma char_eq_backslash: "(c = CHR 0x5C) = ((of_char c :: nat) = 92)"
  by (rule char_code_eq) simp

lemma hex_value_digit: "hex_value (hex_digit k) = Some (k mod 16)"
proof -
  have "m < 16 \<Longrightarrow> hex_value (''0123456789abcdef'' ! m) = Some m" for m
  proof -
    assume "m < 16"
    then have "m = 0 \<or> m = 1 \<or> m = 2 \<or> m = 3 \<or> m = 4 \<or> m = 5 \<or> m = 6 \<or> m = 7 \<or>
        m = 8 \<or> m = 9 \<or> m = 10 \<or> m = 11 \<or> m = 12 \<or> m = 13 \<or> m = 14 \<or> m = 15"
      by presburger
    then show ?thesis
      by (elim disjE) (simp_all add: hex_value_def in_range_def)
  qed
  then show ?thesis by (simp add: hex_digit_def)
qed

lemma hex_value_zero: "hex_value CHR ''0'' = Some 0"
  by (simp add: hex_value_def in_range_def)

lemma map_option_append_Nil: "map_option ((@) []) x = x"
  by (cases x) simp_all

lemma lex_escaped_char:
  "lex_run (InString acc) (json_escape c @ rest) = lex_run (InString (of_char c # acc)) rest"
proof -
  let ?n = "of_char c :: nat"
  have lt: "?n < 256" by simp
  consider "?n = 34" | "?n = 92" | "?n = 8" | "?n = 12" | "?n = 10" | "?n = 13" | "?n = 9"
    | "?n < 32" "?n \<noteq> 8" "?n \<noteq> 12" "?n \<noteq> 10" "?n \<noteq> 13" "?n \<noteq> 9"
    | "32 \<le> ?n" "?n \<noteq> 34" "?n \<noteq> 92"
    by linarith
  then show ?thesis
  proof cases
    case 8
    have d: "16 * (?n div 16 mod 16) + ?n mod 16 = ?n" using 8(1) by simp
    show ?thesis using 8
      by (simp add: json_escape_def Let_def char_eq_quote char_eq_backslash hex_value_digit
          hex_value_zero d map_option_append_Nil)
  next
    case 9
    then show ?thesis
      by (simp add: json_escape_def Let_def char_eq_quote char_eq_backslash map_option_append_Nil)
  qed (simp_all add: json_escape_def Let_def char_eq_quote char_eq_backslash unescape_def
        map_option_append_Nil)
qed


lemma lex_escaped:
  "lex_run (InString acc) (concat (map json_escape s) @ CHR 0x22 # rest) =
     map_option ((#) (TString (rev acc @ units s))) (lex_run Start rest)"
proof (induction s arbitrary: acc)
  case Nil
  have "map_option ((@) [TString (rev acc)]) (lex_run Start rest) =
        map_option ((#) (TString (rev acc))) (lex_run Start rest)"
    by (cases "lex_run Start rest") simp_all
  then show ?case by (simp add: units_def)
next
  case (Cons c s)
  have "lex_run (InString acc) (concat (map json_escape (c # s)) @ CHR 0x22 # rest) =
        lex_run (InString acc) (json_escape c @ (concat (map json_escape s) @ CHR 0x22 # rest))"
    by simp
  also have "\<dots> = lex_run (InString (of_char c # acc)) (concat (map json_escape s) @ CHR 0x22 # rest)"
    by (rule lex_escaped_char)
  also have "\<dots> = map_option ((#) (TString (rev (of_char c # acc) @ units s))) (lex_run Start rest)"
    by (rule Cons.IH)
  finally show ?case by (simp add: units_def)
qed

lemma lex_quote:
  "lex_run Start (json_quote s @ rest) =
     map_option ((#) (TString (units s))) (lex_run Start rest)"
proof -
  have "lex_run Start (json_quote s @ rest) =
        lex_run (InString []) (concat (map json_escape s) @ CHR 0x22 # rest)"
    by (simp add: json_quote_def lex_start_def json_space_def map_option_append_Nil)
  then show ?thesis by (simp add: lex_escaped)
qed

lemma lex_punct:
  "lex_run Start (CHR ''['' # rest) = map_option ((#) LBracket) (lex_run Start rest)"
  "lex_run Start (CHR '']'' # rest) = map_option ((#) RBracket) (lex_run Start rest)"
  "lex_run Start (CHR ''{'' # rest) = map_option ((#) LBrace) (lex_run Start rest)"
  "lex_run Start (CHR ''}'' # rest) = map_option ((#) RBrace) (lex_run Start rest)"
  "lex_run Start (CHR '':'' # rest) = map_option ((#) Colon) (lex_run Start rest)"
  "lex_run Start (CHR '','' # rest) = map_option ((#) Comma) (lex_run Start rest)"
  by (cases "lex_run Start rest"; simp add: lex_start_def json_space_def)+

lemma lex_turn:
  "lex_run Start (stringify_turn t @ rest) = map_option ((@) (turn_tokens t)) (lex_run Start rest)"
proof -
  have "stringify_turn t @ rest =
        CHR ''{'' # json_quote ''role'' @ CHR '':'' # json_quote (role t) @ CHR '','' #
        json_quote ''content'' @ CHR '':'' # json_quote (content t) @ CHR ''}'' # rest"
    by (simp add: stringify_turn_def)
  then show ?thesis
    unfolding turn_tokens_def
    by (cases "lex_run Start rest") (simp_all only: lex_punct lex_quote option.map list.simps append.simps)
qed

lemma join_Cons: "join sep (x # xs) = x @ concat (map (\<lambda>y. sep @ y) xs)"
  by (induction xs arbitrary: x) simp_all

lemma lex_more_turns:
  "lex_run Start (concat (map (\<lambda>y. '','' @ y) (map stringify_turn ts)) @ rest) =
     map_option ((@) (concat (map (\<lambda>t. Comma # turn_tokens t) ts))) (lex_run Start rest)"
proof (induction ts)
  case Nil
  show ?case by (cases "lex_run Start rest") simp_all
next
  case (Cons t ts)
  have "lex_run Start (concat (map (\<lambda>y. '','' @ y) (map stringify_turn (t # ts))) @ rest) =
        lex_run Start (CHR '','' # stringify_turn t @
          (concat (map (\<lambda>y. '','' @ y) (map stringify_turn ts)) @ rest))"
    by simp
  also have "\<dots> = map_option ((#) Comma) (map_option ((@) (turn_tokens t))
        (map_option ((@) (concat (map (\<lambda>t. Comma # turn_tokens t) ts))) (lex_run Start rest)))"
    by (simp only: lex_punct lex_turn Cons.IH)
  finally show ?case by (cases "lex_run Start rest") simp_all
qed

lemma lex_messages: "lex_run Start (JSON_stringify ms) = Some (messages_tokens ms)"
proof (cases ms)
  case Nil
  then show ?thesis
    by (simp add: JSON_stringify_def messages_tokens_def lex_start_def json_space_def)
next
  case (Cons t ts)
  have e: "lex_run Start '']'' = Some [RBracket]"
    by (simp add: lex_start_def json_space_def)
  have "JSON_stringify ms =
        CHR ''['' # stringify_turn t @ (concat (map (\<lambda>y. '','' @ y) (map stringify_turn ts)) @ '']'')"
    by (simp add: JSON_stringify_def Cons join_Cons)
  then have "lex_run Start (JSON_stringify ms) =
        map_option ((#) LBracket) (map_option ((@) (turn_tokens t))
          (map_option ((@) (concat (map (\<lambda>t. Comma # turn_tokens t) ts))) (lex_run Start '']'')))"
    by (simp only: lex_punct lex_turn lex_more_turns)
  then have "lex_run Start (JSON_stringify ms) =
        map_option ((#) LBracket) (map_option ((@) (turn_tokens t))
          (map_option ((@) (concat (map (\<lambda>t. Comma # turn_tokens t) ts))) (Some [RBracket])))"
    by (simp only: e)
  then show ?thesis by (simp add: messages_tokens_def Cons)
qed

lemma parse_turn:
  assumes "p = PValue \<or> p = PFirstElem"
  shows "parse_run p (FArray vs # fs) (turn_tokens t @ rest) =
         parse_run PAfter (FArray (vs @ [json_of_turn t]) # fs) rest"
  using assms by (auto simp: turn_tokens_def json_of_turn_def)

lemma parse_more_turns:
  "parse_run PAfter [FArray vs] (concat (map (\<lambda>t. Comma # turn_tokens t) ts) @ [RBracket]) =
     Some (JArray (vs @ map json_of_turn ts))"
proof (induction ts arbitrary: vs)
  case Nil
  show ?case by simp
next
  case (Cons t ts)
  have "parse_run PAfter [FArray vs] (concat (map (\<lambda>t. Comma # turn_tokens t) (t # ts)) @ [RBracket]) =
        parse_run PValue [FArray vs]
          (turn_tokens t @ (concat (map (\<lambda>t. Comma # turn_tokens t) ts) @ [RBracket]))"
    by simp
  also have "\<dots> = parse_run PAfter [FArray (vs @ [json_of_turn t])]
          (concat (map (\<lambda>t. Comma # turn_tokens t) ts) @ [RBracket])"
    by (rule parse_turn) simp
  also have "\<dots> = Some (JArray ((vs @ [json_of_turn t]) @ map json_of_turn ts))"
    by (rule Cons.IH)
  finally show ?case by simp
qed

lemma parse_messages: "parse_run PValue [] (messages_tokens ms) = Some (json_of_messages ms)"
proof (cases ms)
  case Nil
  then show ?thesis by (simp add: messages_tokens_def json_of_messages_def)
next
  case (Cons t ts)
  have "parse_run PValue [] (messages_tokens ms) =
        parse_run PFirstElem [FArray []]
          (turn_tokens t @ (concat (map (\<lambda>t. Comma # turn_tokens t) ts) @ [RBracket]))"
    by (simp add: messages_tokens_def Cons)
  also have "\<dots> = parse_run PAfter [FArray ([] @ [json_of_turn t])]
          (concat (map (\<lambda>t. Comma # turn_tokens t) ts) @ [RBracket])"
    by (rule parse_turn) simp
  also have "\<dots> = Some (JArray (([] @ [json_of_turn t]) @ map json_of_turn ts))"
    by (rule parse_more_turns)
  finally show ?thesis by (simp add: json_of_messages_def Cons)
qed

lemma JSON_roundtrip: "JSON_parse (JSON_stringify ms) = Inr (json_of_messages ms)"
  by (simp add: JSON_parse_def lex_messages parse_messages)

lemma JSON_stringify_not_empty: "JSON_stringify ms \<noteq> []"
  by (simp add: JSON_stringify_def)

lemma restore_saved: "restore (Some (JSON_stringify ms)) = Inr (json_of_messages ms)"
  by (simp add: restore_def JSON_stringify_not_empty JSON_roundtrip)

lemma JSON_parse_empty_array: "JSON_parse ''[]'' = Inr (JArray [])"
  by (simp add: JSON_parse_def lex_start_def json_space_def)

text \<open>
  Claim C2, as amended: when the stored item is absent or is the empty string, \<open>restore\<close>
  yields the empty conversation; for every other stored text it is \<open>JSON.parse\<close> of that
  text, so a text that is not JSON makes it fail with the \<open>SyntaxError\<close>, which reaches
  the caller.
\<close>

theorem restore_absent_or_parsed:
  "restore None = Inr (JArray []) \<and>
   restore (Some []) = Inr (JArray []) \<and>
   (s \<noteq> [] \<longrightarrow> restore (Some s) = JSON_parse s) \<and>
   (s \<noteq> [] \<and> JSON_parse s = Inl e \<longrightarrow> restore (Some s) = Inl e)"
  by (simp add: restore_def JSON_parse_empty_array)

theorem restore_absent_or_parsed_witness:
  "''[x'' \<noteq> [] \<and> JSON_parse ''[x'' = Inl SyntaxError \<and> restore (Some ''[x'') = Inl SyntaxError"
proof -
  have p: "JSON_parse ''[x'' = Inl SyntaxError" by code_simp
  show ?thesis
    using restore_absent_or_parsed [of "''[x''" SyntaxError] p by simp
qed

text \<open>
  Claim C2 as stated fails: a stored text that is not JSON does not give the empty
  conversation, it gives the parse error.
\<close>

theorem restore_counterexample:
  "restore (Some ''{'') = Inl SyntaxError \<and> restore (Some ''undefined'') = Inl SyntaxError"
  by code_simp

subsection \<open>The send cycle\<close>

lemma trim_empty_iff: "(trim s = []) = (\<forall>c\<in>set s. is_space c)"
proof -
  have "(trim s = []) = (\<forall>c\<in>set (dropWhile is_space s). is_space c)"
    by (simp add: trim_def dropWhile_eq_Nil_conv)
  also have "\<dots> = (dropWhile is_space s = [])"
  proof
    assume a: "\<forall>c\<in>set (dropWhile is_space s). is_space c"
    show "dropWhile is_space s = []"
    proof (rule ccontr)
      assume n: "dropWhile is_space s \<noteq> []"
      then have "\<not> is_space (hd (dropWhile is_space s))" by (rule hd_dropWhile)
      moreover have "hd (dropWhile is_space s) \<in> set (dropWhile is_space s)"
        using n by simp
      ultimately show False using a by blast
    qed
  next
    assume e: "dropWhile is_space s = []"
    show "\<forall>c\<in>set (dropWhile is_space s). is_space c" unfolding e by simp
  qed
  also have "\<dots> = (\<forall>c\<in>set s. is_space c)"
    by (simp add: dropWhile_eq_Nil_conv)
  finally show ?thesis .
qed

lemma begin_fields:
  assumes "trim (input_value st) \<noteq> []"
  shows "sendMessage_begin md st =
     st\<lparr>messages := messages st @ [\<lparr>role = ''user'', content = trim (input_value st)\<rparr>],
        storage := Some (JSON_stringify
          (messages st @ [\<lparr>role = ''user'', content = trim (input_value st)\<rparr>])),
        chatBox := chatBox st @
          [\<lparr>className = ''message user'', body = TextContent (trim (input_value st))\<rparr>],
        input_value := [],
        input_disabled := True,
        send_disabled := True,
        typing_hidden := False,
        effects := effects st @
          [SetItem ''gene_history'' (JSON_stringify
             (messages st @ [\<lparr>role = ''user'', content = trim (input_value st)\<rparr>])),
           Post ''/chat'' (request_body (slice_from (- 20)
             (messages st @ [\<lparr>role = ''user'', content = trim (input_value st)\<rparr>])))]\<rparr>"
  using assms
  by (simp add: sendMessage_begin_def Let_def renderMessage_def push_def saveHistory_def
      getLlmMessages_def message_div_def MAX_CONTEXT_MESSAGES_def)

lemma resume_Body:
  "sendMessage_resume md (Body d) st =
     (st\<lparr>messages := messages st @
          (if truthy (reply d) then [\<lparr>role = ''assistant'', content = the (reply d)\<rparr>] else []),
         storage := Some (JSON_stringify (messages st @
          (if truthy (reply d) then [\<lparr>role = ''assistant'', content = the (reply d)\<rparr>] else []))),
         chatBox := chatBox st @
          (if truthy (reply d) then [message_div md ''assistant'' (the (reply d))] else []) @
          (if truthy (html d) then [message_div md ''assistant'' (the (html d))] else []),
         input_disabled := False,
         send_disabled := False,
         typing_hidden := True,
         effects := effects st @
          [SetItem ''gene_history'' (JSON_stringify (messages st @
            (if truthy (reply d) then [\<lparr>role = ''assistant'', content = the (reply d)\<rparr>] else [])))]\<rparr>,
      None)"
  by (simp add: sendMessage_resume_def Let_def renderMessage_def push_def saveHistory_def)

text \<open>
  Claim C9: when the text field is empty or holds blanks only, the submit action leaves
  the whole state as it is (conversation, storage, chat display, controls) and makes no
  call to the storage or to the network.
\<close>

theorem blank_input_no_effect:
  assumes "\<forall>c\<in>set (input_value st). is_space c"
  shows "trim (input_value st) = [] \<and> sendMessage_begin md st = st \<and>
         sendMessage md out st = (st, None)"
  using assms by (simp add: trim_empty_iff sendMessage_begin_def sendMessage_def)

theorem blank_input_no_effect_witness:
  "sendMessage wrap_paragraph (Body \<lparr>reply = Some ''hi'', html = None\<rparr>)
     \<lparr>messages = [], storage = None, chatBox = [], input_value = [CHR '' '', CHR 0x09, CHR 0x0A],
      input_disabled = False, send_disabled = False, typing_hidden = True, effects = []\<rparr> =
   (\<lparr>messages = [], storage = None, chatBox = [], input_value = [CHR '' '', CHR 0x09, CHR 0x0A],
      input_disabled = False, send_disabled = False, typing_hidden = True, effects = []\<rparr>, None)"
  using blank_input_no_effect [of
     "\<lparr>messages = [], storage = None, chatBox = [], input_value = [CHR '' '', CHR 0x09, CHR 0x0A],
      input_disabled = False, send_disabled = False, typing_hidden = True, effects = []\<rparr>"
     wrap_paragraph "Body \<lparr>reply = Some ''hi'', html = None\<rparr>"]
  by (simp add: is_space_def)

text \<open>
  Claim C7: when the request fails (\<open>fetch\<close> rejects, or the body of the response is not
  JSON), \<open>sendMessage\<close> ends with the error and does nothing more: the state stays as it
  was when the request was issued, with the user turn as the last turn, no message added
  to the chat display, both controls disabled and the typing indicator shown.
\<close>

theorem request_failure_no_recovery:
  assumes "out = FetchRejected \<or> out = BodyNotJSON" and "trim (input_value st) \<noteq> []"
  shows "sendMessage_resume md out st' =
           (st', Some (if out = FetchRejected then NetworkFailure else SyntaxError)) \<and>
         fst (sendMessage md out st) = sendMessage_begin md st \<and>
         snd (sendMessage md out st) \<noteq> None \<and>
         messages (fst (sendMessage md out st)) =
           messages st @ [\<lparr>role = ''user'', content = trim (input_value st)\<rparr>] \<and>
         chatBox (fst (sendMessage md out st)) =
           chatBox st @ [\<lparr>className = ''message user'', body = TextContent (trim (input_value st))\<rparr>] \<and>
         send_disabled (fst (sendMessage md out st)) \<and>
         input_disabled (fst (sendMessage md out st)) \<and>
         \<not> typing_hidden (fst (sendMessage md out st))"
proof -
  have r: "sendMessage_resume md out st' =
           (st', Some (if out = FetchRejected then NetworkFailure else SyntaxError))" for st'
    using assms(1) by (auto simp: sendMessage_resume_def)
  have s: "sendMessage md out st = sendMessage_resume md out (sendMessage_begin md st)"
    using assms(2) by (simp add: sendMessage_def)
  show ?thesis
    unfolding s r by (simp add: begin_fields [OF assms(2)])
qed

theorem request_failure_no_recovery_witness:
  "snd (sendMessage wrap_paragraph FetchRejected (fresh_page ''hello'')) = Some NetworkFailure \<and>
   messages (fst (sendMessage wrap_paragraph FetchRejected (fresh_page ''hello''))) =
     [\<lparr>role = ''user'', content = ''hello''\<rparr>] \<and>
   chatBox (fst (sendMessage wrap_paragraph FetchRejected (fresh_page ''hello''))) =
     [\<lparr>className = ''message user'', body = TextContent ''hello''\<rparr>] \<and>
   send_disabled (fst (sendMessage wrap_paragraph FetchRejected (fresh_page ''hello''))) \<and>
   input_disabled (fst (sendMessage wrap_paragraph FetchRejected (fresh_page ''hello'')))"
proof -
  have t: "trim (input_value (fresh_page ''hello'')) = ''hello''" by code_simp
  have n: "trim (input_value (fresh_page ''hello'')) \<noteq> []" by (simp add: t)
  have r: "sendMessage wrap_paragraph FetchRejected (fresh_page ''hello'') =
           (sendMessage_begin wrap_paragraph (fresh_page ''hello''), Some NetworkFailure)"
    using request_failure_no_recovery [of FetchRejected "fresh_page ''hello''" wrap_paragraph
        "sendMessage_begin wrap_paragraph (fresh_page ''hello'')"] n
    by (simp add: sendMessage_def)
  show ?thesis
    using request_failure_no_recovery [of FetchRejected "fresh_page ''hello''" wrap_paragraph
        "fresh_page ''hello''"] n
    by (simp add: t r) (simp add: fresh_page_def)
qed

text \<open>
  Claim C6: in a send cycle the user turn is appended and written to the storage, then
  the request is issued (with a context window that already holds the user turn, and
  with no assistant turn yet in the conversation), and only the half of \<open>sendMessage\<close> that
  runs on the answer appends the assistant turn and writes the storage again: the calls
  of one cycle are, in this order, the write, the request, the write. Each write recorded
  is a write of the stored item: when the request is issued the stored item is the
  serialisation of the conversation with the user turn, and when the cycle ends it is the
  serialisation of the conversation with the assistant turn.
\<close>

theorem send_cycle_order:
  assumes "trim (input_value st) \<noteq> []"
  shows "storage (saveHistory s) = Some (JSON_stringify (messages s)) \<and>
         effects (saveHistory s) =
           effects s @ [SetItem ''gene_history'' (JSON_stringify (messages s))] \<and>
         messages (sendMessage_begin md st) =
           messages st @ [\<lparr>role = ''user'', content = trim (input_value st)\<rparr>] \<and>
         storage (sendMessage_begin md st) =
           Some (JSON_stringify
             (messages st @ [\<lparr>role = ''user'', content = trim (input_value st)\<rparr>])) \<and>
         fst (getLlmMessages (sendMessage_begin md st)) =
           slice_from (- 20)
             (messages st @ [\<lparr>role = ''user'', content = trim (input_value st)\<rparr>]) \<and>
         effects (sendMessage_begin md st) =
           effects st @
           [SetItem ''gene_history''
              (JSON_stringify (messages st @ [\<lparr>role = ''user'', content = trim (input_value st)\<rparr>])),
            Post ''/chat'' (request_body (fst (getLlmMessages (sendMessage_begin md st))))] \<and>
         messages (fst (sendMessage md (Body d) st)) =
           messages st @ [\<lparr>role = ''user'', content = trim (input_value st)\<rparr>] @
           (if truthy (reply d) then [\<lparr>role = ''assistant'', content = the (reply d)\<rparr>] else []) \<and>
         storage (fst (sendMessage md (Body d) st)) =
           Some (JSON_stringify
             (messages st @ [\<lparr>role = ''user'', content = trim (input_value st)\<rparr>] @
              (if truthy (reply d) then [\<lparr>role = ''assistant'', content = the (reply d)\<rparr>] else []))) \<and>
         effects (fst (sendMessage md (Body d) st)) =
           effects st @
           [SetItem ''gene_history''
              (JSON_stringify (messages st @ [\<lparr>role = ''user'', content = trim (input_value st)\<rparr>])),
            Post ''/chat'' (request_body (fst (getLlmMessages (sendMessage_begin md st)))),
            SetItem ''gene_history''
              (JSON_stringify (messages st @ [\<lparr>role = ''user'', content = trim (input_value st)\<rparr>] @
                 (if truthy (reply d) then [\<lparr>role = ''assistant'', content = the (reply d)\<rparr>] else [])))]"
proof -
  have h: "storage (saveHistory s) = Some (JSON_stringify (messages s))"
          "effects (saveHistory s) =
             effects s @ [SetItem ''gene_history'' (JSON_stringify (messages s))]"
    by (simp_all add: saveHistory_def Let_def)
  have s: "sendMessage md (Body d) st = sendMessage_resume md (Body d) (sendMessage_begin md st)"
    using assms by (simp add: sendMessage_def)
  have w: "fst (getLlmMessages (sendMessage_begin md st)) =
           slice_from (- 20) (messages st @ [\<lparr>role = ''user'', content = trim (input_value st)\<rparr>])"
    by (simp add: getLlmMessages_def MAX_CONTEXT_MESSAGES_def begin_fields [OF assms])
  show ?thesis
    unfolding s w resume_Body h by (simp add: begin_fields [OF assms])
qed

theorem send_cycle_order_witness:
  "storage (sendMessage_begin wrap_paragraph (fresh_page ''hello'')) =
     Some (JSON_stringify [\<lparr>role = ''user'', content = ''hello''\<rparr>]) \<and>
   effects (sendMessage_begin wrap_paragraph (fresh_page ''hello'')) =
     [SetItem ''gene_history'' (JSON_stringify [\<lparr>role = ''user'', content = ''hello''\<rparr>]),
      Post ''/chat'' (request_body [\<lparr>role = ''user'', content = ''hello''\<rparr>])] \<and>
   storage (fst (sendMessage wrap_paragraph (Body \<lparr>reply = Some ''hi there'', html = None\<rparr>)
      (fresh_page ''hello''))) =
     Some (JSON_stringify [\<lparr>role = ''user'', content = ''hello''\<rparr>,
        \<lparr>role = ''assistant'', content = ''hi there''\<rparr>]) \<and>
   effects (fst (sendMessage wrap_paragraph (Body \<lparr>reply = Some ''hi there'', html = None\<rparr>)
      (fresh_page ''hello''))) =
     [SetItem ''gene_history'' (JSON_stringify [\<lparr>role = ''user'', content = ''hello''\<rparr>]),
      Post ''/chat'' (request_body [\<lparr>role = ''user'', content = ''hello''\<rparr>]),
      SetItem ''gene_history'' (JSON_stringify [\<lparr>role = ''user'', content = ''hello''\<rparr>,
        \<lparr>role = ''assistant'', content = ''hi there''\<rparr>])]"
proof -
  have t: "trim (input_value (fresh_page ''hello'')) = ''hello''" by code_simp
  have w: "slice_from (- 20) [\<lparr>role = ''user'', content = ''hello''\<rparr>] =
           [\<lparr>role = ''user'', content = ''hello''\<rparr>]"
    by (simp add: slice_from_def)
  have n: "trim (input_value (fresh_page ''hello'')) \<noteq> []" by (simp add: t)
  have m: "messages (fresh_page ''hello'') = []" "effects (fresh_page ''hello'') = []"
    by (simp_all add: fresh_page_def)
  show ?thesis
    using send_cycle_order [OF n, of "fresh_page ''hello''" wrap_paragraph
        "\<lparr>reply = Some ''hi there'', html = None\<rparr>"]
    by (simp add: t w m truthy_def)
qed

text \<open>
  Claim C4: after an append (\<open>push\<close> followed by \<open>saveHistory\<close>, as both halves of
  \<open>sendMessage\<close> do it) the stored item is the serialisation of the whole array
  \<open>messages\<close>; after the clear button the array is empty and the stored item is removed.
  In each case \<open>restore\<close> reads back from the storage the conversation in memory.
\<close>

theorem storage_reconciled:
  "storage (saveHistory (push t st)) = Some (JSON_stringify (messages st @ [t])) \<and>
   messages (saveHistory (push t st)) = messages st @ [t] \<and>
   (trim (input_value st) \<noteq> [] \<longrightarrow>
      storage (sendMessage_begin md st) = Some (JSON_stringify (messages (sendMessage_begin md st))) \<and>
      restore (storage (sendMessage_begin md st)) =
        Inr (json_of_messages (messages (sendMessage_begin md st)))) \<and>
   storage (fst (sendMessage_resume md (Body d) st)) =
     Some (JSON_stringify (messages (fst (sendMessage_resume md (Body d) st)))) \<and>
   restore (storage (fst (sendMessage_resume md (Body d) st))) =
     Inr (json_of_messages (messages (fst (sendMessage_resume md (Body d) st)))) \<and>
   messages (clearChat st) = [] \<and> storage (clearChat st) = None \<and>
   restore (storage (clearChat st)) = Inr (json_of_messages (messages (clearChat st)))"
proof -
  have a: "storage (saveHistory (push t st)) = Some (JSON_stringify (messages st @ [t]))"
          "messages (saveHistory (push t st)) = messages st @ [t]"
    by (simp_all add: saveHistory_def push_def Let_def)
  have b: "trim (input_value st) \<noteq> [] \<longrightarrow>
      storage (sendMessage_begin md st) = Some (JSON_stringify (messages (sendMessage_begin md st))) \<and>
      restore (storage (sendMessage_begin md st)) =
        Inr (json_of_messages (messages (sendMessage_begin md st)))"
    by (simp add: begin_fields restore_saved)
  have c: "storage (fst (sendMessage_resume md (Body d) st)) =
     Some (JSON_stringify (messages (fst (sendMessage_resume md (Body d) st))))"
    by (simp add: resume_Body)
  have d: "restore (storage (fst (sendMessage_resume md (Body d) st))) =
     Inr (json_of_messages (messages (fst (sendMessage_resume md (Body d) st))))"
    unfolding c by (rule restore_saved)
  have e: "messages (clearChat st) = []" "storage (clearChat st) = None"
    "restore (storage (clearChat st)) = Inr (json_of_messages (messages (clearChat st)))"
    by (simp_all add: clearChat_def restore_def JSON_parse_empty_array json_of_messages_def)
  from a b c d e show ?thesis by blast
qed

theorem storage_reconciled_witness:
  "trim (input_value (fresh_page ''hello'')) \<noteq> [] \<and>
   storage (sendMessage_begin wrap_paragraph (fresh_page ''hello'')) =
     Some (JSON_stringify [\<lparr>role = ''user'', content = ''hello''\<rparr>]) \<and>
   messages (sendMessage_begin wrap_paragraph (fresh_page ''hello'')) =
     [\<lparr>role = ''user'', content = ''hello''\<rparr>]"
proof -
  have t: "trim (input_value (fresh_page ''hello'')) = ''hello''" by code_simp
  have m: "messages (sendMessage_begin wrap_paragraph (fresh_page ''hello'')) =
     [\<lparr>role = ''user'', content = ''hello''\<rparr>]"
    by (simp add: begin_fields t) (simp add: fresh_page_def)
  show ?thesis
    using storage_reconciled [of "\<lparr>role = ''user'', content = ''x''\<rparr>" "fresh_page ''hello''"
        wrap_paragraph "\<lparr>reply = None, html = None\<rparr>"]
    by (simp add: t m)
qed

text \<open>
  Claim C10: the field \<open>html\<close> of the answer is rendered into the chat display and goes
  nowhere else. After the answer the conversation is the conversation before it with, if
  the field \<open>reply\<close> is there and not empty, one assistant turn holding the reply; the
  storage holds the serialisation of exactly that, whatever the field \<open>html\<close> is; and
  \<open>restore\<close> reads exactly that back.
\<close>

theorem html_field_not_stored:
  "chatBox (fst (sendMessage_resume md (Body d) st)) =
     chatBox st @
     (if truthy (reply d) then [message_div md ''assistant'' (the (reply d))] else []) @
     (if truthy (html d) then [message_div md ''assistant'' (the (html d))] else []) \<and>
   messages (fst (sendMessage_resume md (Body d) st)) =
     messages st @
     (if truthy (reply d) then [\<lparr>role = ''assistant'', content = the (reply d)\<rparr>] else []) \<and>
   storage (fst (sendMessage_resume md (Body d) st)) =
     Some (JSON_stringify (messages st @
       (if truthy (reply d) then [\<lparr>role = ''assistant'', content = the (reply d)\<rparr>] else []))) \<and>
   messages (fst (sendMessage_resume md (Body (d\<lparr>html := h\<rparr>)) st)) =
     messages (fst (sendMessage_resume md (Body d) st)) \<and>
   storage (fst (sendMessage_resume md (Body (d\<lparr>html := h\<rparr>)) st)) =
     storage (fst (sendMessage_resume md (Body d) st)) \<and>
   restore (storage (fst (sendMessage_resume md (Body d) st))) =
     Inr (json_of_messages (messages st @
       (if truthy (reply d) then [\<lparr>role = ''assistant'', content = the (reply d)\<rparr>] else []))) \<and>
   (trim (input_value st) \<noteq> [] \<longrightarrow>
      messages (fst (sendMessage md (Body d) st)) =
        messages st @ [\<lparr>role = ''user'', content = trim (input_value st)\<rparr>] @
        (if truthy (reply d) then [\<lparr>role = ''assistant'', content = the (reply d)\<rparr>] else []) \<and>
      storage (fst (sendMessage md (Body d) st)) =
        Some (JSON_stringify (messages (fst (sendMessage md (Body d) st)))))"
proof -
  have s: "storage (fst (sendMessage_resume md (Body d) st)) =
     Some (JSON_stringify (messages st @
       (if truthy (reply d) then [\<lparr>role = ''assistant'', content = the (reply d)\<rparr>] else [])))"
    by (simp add: resume_Body)
  have r: "restore (storage (fst (sendMessage_resume md (Body d) st))) =
     Inr (json_of_messages (messages st @
       (if truthy (reply d) then [\<lparr>role = ''assistant'', content = the (reply d)\<rparr>] else [])))"
    unfolding s by (rule restore_saved)
  have c: "trim (input_value st) \<noteq> [] \<longrightarrow>
      messages (fst (sendMessage md (Body d) st)) =
        messages st @ [\<lparr>role = ''user'', content = trim (input_value st)\<rparr>] @
        (if truthy (reply d) then [\<lparr>role = ''assistant'', content = the (reply d)\<rparr>] else []) \<and>
      storage (fst (sendMessage md (Body d) st)) =
        Some (JSON_stringify (messages (fst (sendMessage md (Body d) st))))"
    by (simp add: sendMessage_def resume_Body begin_fields)
  show ?thesis
    using r c by (simp add: resume_Body)
qed

theorem html_field_not_stored_witness:
  "trim (input_value (fresh_page ''hello'')) \<noteq> [] \<and>
   messages (fst (sendMessage wrap_paragraph
       (Body \<lparr>reply = Some ''hi there'', html = Some ''<iframe src=x></iframe>''\<rparr>)
       (fresh_page ''hello''))) =
     [\<lparr>role = ''user'', content = ''hello''\<rparr>, \<lparr>role = ''assistant'', content = ''hi there''\<rparr>] \<and>
   storage (fst (sendMessage wrap_paragraph
       (Body \<lparr>reply = Some ''hi there'', html = Some ''<iframe src=x></iframe>''\<rparr>)
       (fresh_page ''hello''))) =
     Some (JSON_stringify
       [\<lparr>role = ''user'', content = ''hello''\<rparr>, \<lparr>role = ''assistant'', content = ''hi there''\<rparr>])"
proof -
  have t: "trim (input_value (fresh_page ''hello'')) = ''hello''" by code_simp
  show ?thesis
    using html_field_not_stored [of wrap_paragraph
        "\<lparr>reply = Some ''hi there'', html = Some ''<iframe src=x></iframe>''\<rparr>"
        "fresh_page ''hello''" None]
    by (simp add: t truthy_def) (simp add: fresh_page_def)
qed

end
